theory Spec2Isabelle
  imports Main "HOL-Library.Word"
begin

section \<open>Python values, errors and the byte cursor\<close>

text \<open>
  The OSPF analyser of \<^verbatim>\<open>jspcap/link/ospf.py\<close> reads a header from a file object and
  assembles a Python \<^verbatim>\<open>dict\<close>. The values it stores are integers, strings, byte strings,
  \<^verbatim>\<open>None\<close> (what \<^verbatim>\<open>dict.get\<close> returns for a missing key) and nested dicts. A dict keeps
  its keys in insertion order, so it is an association list.
\<close>

type_synonym byte = "8 word"

datatype pyval =
    PNone
  | PInt int
  | PStr string
  | PBytes "byte list"
  | PDict "(string \<times> pyval) list"

type_synonym pydict = "(string \<times> pyval) list"

datatype error = TruncatedInput

text \<open>
  The file object \<^verbatim>\<open>self._file\<close>: a byte buffer that reading never changes, and the
  read position.
\<close>

record cursor =
  buffer :: "byte list"
  position :: nat

definition remaining :: "cursor \<Rightarrow> nat" where
  "remaining c = length (buffer c) - position c"

text \<open>A read followed by the rest of the function; an exception ends the function.\<close>

definition bnd :: "error + ('a \<times> cursor) \<Rightarrow> ('a \<Rightarrow> cursor \<Rightarrow> error + ('b \<times> cursor)) \<Rightarrow> error + ('b \<times> cursor)" where
  "bnd m f = (case m of Inl e \<Rightarrow> Inl e | Inr (x, c) \<Rightarrow> f x c)"

text \<open>Modelled from the spec: \<^verbatim>\<open>_read_fileng\<close> is inherited from the base class, which is not
  among the sources. The spec's \<^verbatim>\<open>read(n)\<close> returns the next \<open>n\<close> bytes and advances the
  position by \<open>n\<close>; it fails with \<^verbatim>\<open>TruncatedInput\<close> if fewer than \<open>n\<close> bytes remain.
\<close>

definition read_fileng :: "nat \<Rightarrow> cursor \<Rightarrow> error + (byte list \<times> cursor)" where
  "read_fileng n c =
     (if remaining c < n then Inl TruncatedInput
      else Inr (take n (drop (position c) (buffer c)), c\<lparr>position := position c + n\<rparr>))"

text \<open>The value of a byte string read as an unsigned big-endian integer.\<close>

definition be_uint :: "byte list \<Rightarrow> int" where
  "be_uint bs = foldl (\<lambda>a b. a * 256 + uint b) 0 bs"

text \<open>Modelled from the spec: \<^verbatim>\<open>_read_unpack\<close> is inherited from the base class, which is not
  among the sources. The spec's \<^verbatim>\<open>read_uint(n)\<close> reads \<open>n\<close> bytes and interprets them as an
  unsigned big-endian integer, failing with \<^verbatim>\<open>TruncatedInput\<close> under the same condition
  as \<^verbatim>\<open>read\<close>. The analyser calls it with the widths 1, 2 and 4 only.
\<close>

definition read_unpack :: "nat \<Rightarrow> cursor \<Rightarrow> error + (int \<times> cursor)" where
  "read_unpack n c = bnd (read_fileng n c) (\<lambda>bs c'. Inr (be_uint bs, c'))"

section \<open>Python's \<^verbatim>\<open>str\<close>, \<^verbatim>\<open>join\<close>, \<^verbatim>\<open>or\<close> and dict operations\<close>

definition digit :: "nat \<Rightarrow> char" where
  "digit n = ''0123456789'' ! n"

fun str_nat :: "nat \<Rightarrow> string" where
  "str_nat n = (if n < 10 then [digit n] else str_nat (n div 10) @ [digit (n mod 10)])"

declare str_nat.simps [simp del]

text \<open>\<^verbatim>\<open>str(i)\<close> for a Python integer.\<close>

definition str :: "int \<Rightarrow> string" where
  "str i = (if i < 0 then CHR ''-'' # str_nat (nat (- i)) else str_nat (nat i))"

text \<open>\<^verbatim>\<open>sep.join(xs)\<close>.\<close>

fun join :: "string \<Rightarrow> string list \<Rightarrow> string" where
  "join sep [] = []"
| "join sep [x] = x"
| "join sep (x # y # ys) = x @ sep @ join sep (y # ys)"

text \<open>Truthiness, and \<^verbatim>\<open>x or y\<close>: \<open>x\<close> if it is truthy, else \<open>y\<close>.\<close>

fun truthy :: "pyval \<Rightarrow> bool" where
  "truthy PNone = False"
| "truthy (PInt i) = (i \<noteq> 0)"
| "truthy (PStr s) = (s \<noteq> [])"
| "truthy (PBytes bs) = (bs \<noteq> [])"
| "truthy (PDict d) = (d \<noteq> [])"

definition py_or :: "pyval \<Rightarrow> pyval \<Rightarrow> pyval" where
  "py_or x y = (if truthy x then x else y)"

text \<open>\<^verbatim>\<open>d.get(k)\<close> on a table of names: the name, or \<^verbatim>\<open>None\<close> for a missing key.\<close>

definition dict_get :: "(int \<times> string) list \<Rightarrow> int \<Rightarrow> pyval" where
  "dict_get d k = (case map_of d k of None \<Rightarrow> PNone | Some s \<Rightarrow> PStr s)"

text \<open>
  \<^verbatim>\<open>d[k] = v\<close>: an existing key keeps its place and takes the new value, a new key goes
  to the end.
\<close>

fun dict_set :: "string \<Rightarrow> pyval \<Rightarrow> pydict \<Rightarrow> pydict" where
  "dict_set k v [] = [(k, v)]"
| "dict_set k v ((k', v') # d) =
     (if k' = k then (k, v) # d else (k', v') # dict_set k v d)"

section \<open>The code tables\<close>

text \<open>OSPF packet types (\<^verbatim>\<open>TYPE\<close> in the source; the name is reserved in HOL).\<close>

definition TYPE_tbl :: "(int \<times> string) list" where
  "TYPE_tbl =
     [(1, ''Hello''),
      (2, ''Database Description''),
      (3, ''Link State Request''),
      (4, ''Link State Update''),
      (5, ''Link State Acknowledgment'')]"

text \<open>Authentication types.\<close>

definition AUTH :: "(int \<times> string) list" where
  "AUTH =
     [(0, ''Null Authentication''),
      (1, ''Simple Password''),
      (2, ''Cryptographic Authentication'')]"

section \<open>The OSPF analyser\<close>

definition read_id_numbers :: "cursor \<Rightarrow> error + (string \<times> cursor)" where
  "read_id_numbers c =
     bnd (read_fileng 4 c) (\<lambda>byte c.
       Inr (join ''.'' (map (\<lambda>b. str (uint b)) byte), c))"

definition read_encrypt_auth :: "cursor \<Rightarrow> error + (pydict \<times> cursor)" where
  "read_encrypt_auth c =
     bnd (read_fileng 2 c) (\<lambda>resv c.
     bnd (read_unpack 1 c) (\<lambda>keys c.
     bnd (read_unpack 1 c) (\<lambda>alen c.
     bnd (read_unpack 4 c) (\<lambda>seqn c.
       Inr ([(''resv'', PBytes resv),
             (''key_id'', PInt keys),
             (''len'', PInt alen),
             (''seq'', PInt seqn)], c)))))"

text \<open>
  The body of \<^verbatim>\<open>read_ospf\<close> up to its last statement: the seven reads, the dict
  \<^verbatim>\<open>ospf\<close>, and the branch on the raw \<^verbatim>\<open>_autp\<close> that stores \<^verbatim>\<open>ospf['auth']\<close>.
\<close>

definition read_ospf_dict :: "cursor \<Rightarrow> error + (pydict \<times> cursor)" where
  "read_ospf_dict c =
     bnd (read_unpack 1 c) (\<lambda>vers c.
     bnd (read_unpack 1 c) (\<lambda>type c.
     bnd (read_unpack 2 c) (\<lambda>tlen c.
     bnd (read_id_numbers c) (\<lambda>rtid c.
     bnd (read_id_numbers c) (\<lambda>area c.
     bnd (read_fileng 2 c) (\<lambda>csum c.
     bnd (read_unpack 2 c) (\<lambda>autp c.
       let ospf = [(''version'', PInt vers),
                   (''type'', dict_get TYPE_tbl type),
                   (''len'', PInt tlen),
                   (''router_id'', PStr rtid),
                   (''area_id'', PStr area),
                   (''chksum'', PBytes csum),
                   (''autype'', py_or (dict_get AUTH autp) (PStr ''Reserved''))]
       in if autp = 2
          then bnd (read_encrypt_auth c) (\<lambda>auth c. Inr (dict_set ''auth'' (PDict auth) ospf, c))
          else bnd (read_fileng 8 c) (\<lambda>auth c. Inr (dict_set ''auth'' (PBytes auth) ospf, c)))))))))"

type_synonym dissector = "cursor \<Rightarrow> error + (pydict \<times> cursor)"

definition next_layer_slot :: string where
  "next_layer_slot = ''next_layer''"

text \<open>Modelled from the spec: \<^verbatim>\<open>_read_next_layer\<close> is inherited from the base class, which is
  not among the sources. The spec's layer chain inspects the cursor's remaining bytes. If
  bytes remain and a next-layer dissector is known for this header (\<open>nxt\<close>), it runs that
  dissector and nests its record under the reserved \<^verbatim>\<open>next_layer\<close> key of the current
  record; a failure of the nested decode leaves the outer record with its fields and the
  slot absent. If no dissector is known, it attaches the remaining raw bytes verbatim,
  or omits the slot if none remain. It never fails.
\<close>

definition read_next_layer :: "dissector option \<Rightarrow> pydict \<Rightarrow> cursor \<Rightarrow> error + (pydict \<times> cursor)" where
  "read_next_layer nxt d c =
     (if remaining c = 0 then Inr (d, c)
      else case nxt of
          None \<Rightarrow>
            Inr (dict_set next_layer_slot (PBytes (drop (position c) (buffer c))) d,
                 c\<lparr>position := length (buffer c)\<rparr>)
        | Some dis \<Rightarrow>
            (case dis c of
               Inl e \<Rightarrow> Inr (d, c)
             | Inr (sub, c') \<Rightarrow> Inr (dict_set next_layer_slot (PDict sub) d, c')))"

text \<open>\<^verbatim>\<open>read_ospf\<close>: the dict, handed to \<^verbatim>\<open>_read_next_layer\<close>, whose result is returned.\<close>

definition read_ospf :: "dissector option \<Rightarrow> cursor \<Rightarrow> error + (pydict \<times> cursor)" where
  "read_ospf nxt c = bnd (read_ospf_dict c) (\<lambda>ospf c. read_next_layer nxt ospf c)"

text \<open>
  An \<^verbatim>\<open>OSPF\<close> object holds the file and the decoded record. \<^verbatim>\<open>__init__\<close> runs
  \<^verbatim>\<open>read_ospf\<close>; when that raises, no object exists. The class \<^verbatim>\<open>Info\<close> is imported from
  a module that is not among the sources; the spec's FieldRecord is a read-only snapshot
  of the decoded dict, so the record is kept as the dict.
\<close>

record OSPF =
  ospf_file :: cursor
  ospf_info :: pydict

definition OSPF_init :: "dissector option \<Rightarrow> cursor \<Rightarrow> error + OSPF" where
  "OSPF_init nxt file =
     (case read_ospf nxt file of
        Inl e \<Rightarrow> Inl e
      | Inr (d, file') \<Rightarrow> Inr \<lparr>ospf_file = file', ospf_info = d\<rparr>)"

text \<open>The property \<^verbatim>\<open>length\<close>, and \<^verbatim>\<open>__len__\<close> and \<^verbatim>\<open>__length_hint__\<close>.\<close>

definition length_prop :: "OSPF \<Rightarrow> int" where
  "length_prop self = 24"

definition len_dunder :: "OSPF \<Rightarrow> int" where
  "len_dunder self = 24"

definition length_hint_dunder :: "OSPF \<Rightarrow> int" where
  "length_hint_dunder self = 24"

text \<open>Reading a field of a decode's result: \<^verbatim>\<open>result[k]\<close>, when there is a result.\<close>

definition get_field :: "string \<Rightarrow> error + (pydict \<times> cursor) \<Rightarrow> pyval option" where
  "get_field k res = (case res of Inl e \<Rightarrow> None | Inr (d, c) \<Rightarrow> map_of d k)"

text \<open>The \<open>i\<close>-th byte after the cursor's position, as an integer.\<close>

definition octet :: "cursor \<Rightarrow> nat \<Rightarrow> int" where
  "octet c i = uint (buffer c ! (position c + i))"

section \<open>Closed forms and concrete inputs used in the statements\<close>

text \<open>The bytes from the cursor's position on.\<close>

definition rest :: "cursor \<Rightarrow> byte list" where
  "rest c = drop (position c) (buffer c)"

text \<open>
  The record that \<^verbatim>\<open>read_ospf\<close> assembles, written as a function of the header bytes:
  the closed form that the decoder is proved to compute on 24 bytes or more.
\<close>

definition header_of :: "byte list \<Rightarrow> pydict" where
  "header_of bs =
    (let autp = be_uint (take 2 (drop 14 bs)) in
     [(''version'', PInt (be_uint (take 1 bs))),
      (''type'', dict_get TYPE_tbl (be_uint (take 1 (drop 1 bs)))),
      (''len'', PInt (be_uint (take 2 (drop 2 bs)))),
      (''router_id'', PStr (join ''.'' (map (\<lambda>b. str (uint b)) (take 4 (drop 4 bs))))),
      (''area_id'', PStr (join ''.'' (map (\<lambda>b. str (uint b)) (take 4 (drop 8 bs))))),
      (''chksum'', PBytes (take 2 (drop 12 bs))),
      (''autype'', py_or (dict_get AUTH autp) (PStr ''Reserved'')),
      (''auth'', if autp = 2 then PDict
          [(''resv'', PBytes (take 2 (drop 16 bs))),
           (''key_id'', PInt (be_uint (take 1 (drop 18 bs)))),
           (''len'', PInt (be_uint (take 1 (drop 19 bs)))),
           (''seq'', PInt (be_uint (take 4 (drop 20 bs))))]
         else PBytes (take 8 (drop 16 bs)))])"


text \<open>The value of a string of decimal digits.\<close>

definition int_of_decimal :: "string \<Rightarrow> int" where
  "int_of_decimal s = foldl (\<lambda>a ch. 10 * a + (of_char ch - 48)) 0 s"

text \<open>
  A reader consumes \<open>n\<close> bytes: with fewer than \<open>n\<close> bytes left it fails with
  \<^verbatim>\<open>TruncatedInput\<close>, and otherwise it returns with the position advanced by exactly \<open>n\<close>
  and the buffer unchanged.
\<close>

definition consumes :: "nat \<Rightarrow> (cursor \<Rightarrow> error + ('a \<times> cursor)) \<Rightarrow> bool" where
  "consumes n f \<longleftrightarrow>
     (\<forall>c. (remaining c < n \<longrightarrow> f c = Inl TruncatedInput) \<and>
          (n \<le> remaining c \<longrightarrow> (\<exists>x. f c = Inr (x, c\<lparr>position := position c + n\<rparr>))))"

text \<open>
  Concrete buffers. \<open>example_header\<close> is the header of the spec's scenario (version 2,
  type 1, length 44, router 192.0.2.1, area 0.0.0.1, authentication type 0); the others
  differ from it in the type code (9), in the authentication type (2, 99, and 1), or are
  cut to 10 bytes.
\<close>

definition example_header :: "byte list" where
  "example_header =
     [0x02, 0x01, 0x00, 0x2C, 0xC0, 0x00, 0x02, 0x01, 0x00, 0x00, 0x00, 0x01,
      0xAB, 0xCD, 0x00, 0x00, 0xDE, 0xAD, 0xBE, 0xEF, 0xCA, 0xFE, 0xBA, 0xBE]"

definition at_start :: "byte list \<Rightarrow> cursor" where
  "at_start bs = \<lparr>buffer = bs, position = 0\<rparr>"

definition unknown_type_header :: "byte list" where
  "unknown_type_header =
     [0x02, 0x09, 0x00, 0x2C, 0xC0, 0x00, 0x02, 0x01, 0x00, 0x00, 0x00, 0x01,
      0xAB, 0xCD, 0x00, 0x00, 0xDE, 0xAD, 0xBE, 0xEF, 0xCA, 0xFE, 0xBA, 0xBE]"

definition crypto_header :: "byte list" where
  "crypto_header =
     [0x02, 0x01, 0x00, 0x2C, 0xC0, 0x00, 0x02, 0x01, 0x00, 0x00, 0x00, 0x01,
      0xAB, 0xCD, 0x00, 0x02, 0x00, 0x00, 0x07, 0x10, 0x00, 0x00, 0x01, 0x02]"

definition reserved_auth_header :: "byte list" where
  "reserved_auth_header =
     [0x02, 0x01, 0x00, 0x2C, 0xC0, 0x00, 0x02, 0x01, 0x00, 0x00, 0x00, 0x01,
      0xAB, 0xCD, 0x00, 0x63, 0xDE, 0xAD, 0xBE, 0xEF, 0xCA, 0xFE, 0xBA, 0xBE]"

definition password_header :: "byte list" where
  "password_header =
     [0x02, 0x01, 0x00, 0x2C, 0xC0, 0x00, 0x02, 0x01, 0x00, 0x00, 0x00, 0x01,
      0xAB, 0xCD, 0x00, 0x01, 0x73, 0x65, 0x63, 0x72, 0x65, 0x74, 0x00, 0x00]"

definition short_buffer :: "byte list" where
  "short_buffer = [0x02, 0x01, 0x00, 0x2C, 0xC0, 0x00, 0x02, 0x01, 0x00, 0x00]"

section \<open>The decoder on a sufficient buffer\<close>

lemma read_fileng_ok:
  "position c + n \<le> length (buffer c) \<Longrightarrow>
   read_fileng n c = Inr (take n (drop (position c) (buffer c)), c\<lparr>position := position c + n\<rparr>)"
  by (simp add: read_fileng_def remaining_def)

lemma read_unpack_ok:
  "position c + n \<le> length (buffer c) \<Longrightarrow>
   read_unpack n c = Inr (be_uint (take n (drop (position c) (buffer c))), c\<lparr>position := position c + n\<rparr>)"
  by (simp add: read_unpack_def read_fileng_ok bnd_def)

lemma read_id_numbers_ok:
  "position c + 4 \<le> length (buffer c) \<Longrightarrow>
   read_id_numbers c = Inr (join ''.'' (map (\<lambda>b. str (uint b)) (take 4 (drop (position c) (buffer c)))), c\<lparr>position := position c + 4\<rparr>)"
  by (simp add: read_id_numbers_def read_fileng_ok bnd_def)

lemma read_encrypt_auth_ok:
  "position c + 8 \<le> length (buffer c) \<Longrightarrow>
   read_encrypt_auth c = Inr
     ([(''resv'', PBytes (take 2 (drop (position c) (buffer c)))),
       (''key_id'', PInt (be_uint (take 1 (drop (position c + 2) (buffer c))))),
       (''len'', PInt (be_uint (take 1 (drop (position c + 3) (buffer c))))),
       (''seq'', PInt (be_uint (take 4 (drop (position c + 4) (buffer c)))))],
      c\<lparr>position := position c + 8\<rparr>)"
  by (simp add: read_encrypt_auth_def read_fileng_ok read_unpack_ok bnd_def eval_nat_numeral)

lemma read_ospf_dict_ok:
  assumes "position c + 24 \<le> length (buffer c)"
  shows "read_ospf_dict c = Inr (header_of (rest c), c\<lparr>position := position c + 24\<rparr>)"
  using assms
  by (simp add: read_ospf_dict_def header_of_def rest_def read_fileng_ok read_unpack_ok
      read_id_numbers_ok read_encrypt_auth_ok bnd_def Let_def eval_nat_numeral)

section \<open>Byte consumption and truncation\<close>

lemma consumes_short: "consumes n f \<Longrightarrow> remaining c < n \<Longrightarrow> f c = Inl TruncatedInput"
  by (simp add: consumes_def)

lemma consumes_enough:
  "consumes n f \<Longrightarrow> n \<le> remaining c \<Longrightarrow> \<exists>x. f c = Inr (x, c\<lparr>position := position c + n\<rparr>)"
  by (simp add: consumes_def)

lemma consumes_read_fileng: "consumes n (read_fileng n)"
  by (simp add: consumes_def read_fileng_def)

lemma consumes_bnd:
  assumes f: "consumes n f" and g: "\<And>x. consumes m (g x)"
  shows "consumes (n + m) (\<lambda>c. bnd (f c) g)"
  unfolding consumes_def
proof (intro allI conjI impI)
  fix c :: cursor
  assume short: "remaining c < n + m"
  show "bnd (f c) g = Inl TruncatedInput"
  proof (cases "remaining c < n")
    case True
    with f show ?thesis by (simp add: consumes_short bnd_def)
  next
    case False
    then have "n \<le> remaining c" by simp
    from consumes_enough [OF f this]
    obtain x where fx: "f c = Inr (x, c\<lparr>position := position c + n\<rparr>)" by blast
    from False short have "remaining (c\<lparr>position := position c + n\<rparr>) < m"
      by (simp add: remaining_def)
    with g [of x] have "g x (c\<lparr>position := position c + n\<rparr>) = Inl TruncatedInput"
      by (rule consumes_short)
    with fx show ?thesis by (simp add: bnd_def)
  qed
next
  fix c :: cursor
  assume enough: "n + m \<le> remaining c"
  then have "n \<le> remaining c" by simp
  from consumes_enough [OF f this]
  obtain x where fx: "f c = Inr (x, c\<lparr>position := position c + n\<rparr>)" by blast
  from enough have "m \<le> remaining (c\<lparr>position := position c + n\<rparr>)"
    by (simp add: remaining_def)
  from consumes_enough [OF g [of x] this] obtain y where
    "g x (c\<lparr>position := position c + n\<rparr>) = Inr (y, c\<lparr>position := position c + n + m\<rparr>)"
    by auto
  with fx show "\<exists>y. bnd (f c) g = Inr (y, c\<lparr>position := position c + (n + m)\<rparr>)"
    by (simp add: bnd_def add.assoc)
qed

lemma consumes_return: "consumes 0 (\<lambda>c. Inr (x, c))"
  by (simp add: consumes_def)

lemma consumes_bnd_return:
  assumes "consumes n f"
  shows "consumes n (\<lambda>c. bnd (f c) (\<lambda>x c. Inr (h x, c)))"
  using consumes_bnd [OF assms, of 0 "\<lambda>x c. Inr (h x, c)"] by (simp add: consumes_return)

lemma consumes_read_unpack: "consumes n (read_unpack n)"
  unfolding read_unpack_def by (rule consumes_bnd_return [OF consumes_read_fileng])

lemma consumes_read_id_numbers: "consumes 4 read_id_numbers"
  unfolding read_id_numbers_def by (rule consumes_bnd_return [OF consumes_read_fileng])

lemma consumes_read_encrypt_auth: "consumes 8 read_encrypt_auth"
proof -
  have "consumes (2 + (1 + (1 + 4))) read_encrypt_auth"
    unfolding read_encrypt_auth_def
    by (intro consumes_bnd consumes_bnd_return consumes_read_fileng consumes_read_unpack)
  then show ?thesis by simp
qed

lemma consumes_read_ospf_dict: "consumes 24 read_ospf_dict"
proof -
  have tail: "consumes 8 (\<lambda>c. if autp = 2
          then bnd (read_encrypt_auth c) (\<lambda>auth c. Inr (dict_set ''auth'' (PDict auth) ospf, c))
          else bnd (read_fileng 8 c) (\<lambda>auth c. Inr (dict_set ''auth'' (PBytes auth) ospf, c)))"
    for autp :: int and ospf
    by (cases "autp = 2")
      (simp_all add: consumes_bnd_return consumes_read_encrypt_auth consumes_read_fileng)
  have "consumes (1 + (1 + (2 + (4 + (4 + (2 + (2 + 8))))))) read_ospf_dict"
    unfolding read_ospf_dict_def Let_def
    by (intro consumes_bnd consumes_read_fileng consumes_read_unpack consumes_read_id_numbers tail)
  then show ?thesis by simp
qed

lemma read_ospf_dict_trunc:
  "length (buffer c) < position c + 24 \<Longrightarrow> read_ospf_dict c = Inl TruncatedInput"
  using consumes_read_ospf_dict by (auto simp: consumes_def remaining_def)

section \<open>Slices as octets\<close>

lemma take_Suc_drop:
  "p < length b \<Longrightarrow> take (Suc n) (drop p b) = b ! p # take n (drop (Suc p) b)"
  by (metis Cons_nth_drop_Suc take_Suc_Cons)

lemma slice1: "1 \<le> length bs \<Longrightarrow> take 1 bs = [bs ! 0]"
  by (cases bs) simp_all

lemma slice1_drop: "k + 1 \<le> length bs \<Longrightarrow> take 1 (drop k bs) = [bs ! k]"
  using take_Suc_drop [of k bs 0] by simp

lemma slice2_drop: "k + 2 \<le> length bs \<Longrightarrow> take 2 (drop k bs) = [bs ! k, bs ! (k + 1)]"
  using take_Suc_drop [of k bs 1] take_Suc_drop [of "Suc k" bs 0] by (simp add: eval_nat_numeral)

lemma slice4_drop:
  "k + 4 \<le> length bs \<Longrightarrow> take 4 (drop k bs) = [bs ! k, bs ! (k + 1), bs ! (k + 2), bs ! (k + 3)]"
  using take_Suc_drop [of k bs 3] take_Suc_drop [of "Suc k" bs 2]
    take_Suc_drop [of "Suc (Suc k)" bs 1] take_Suc_drop [of "Suc (Suc (Suc k))" bs 0]
  by (simp add: eval_nat_numeral)

lemma be_uint_1: "be_uint [a] = uint a"
  by (simp add: be_uint_def)

lemma be_uint_2: "be_uint [a, b] = uint a * 256 + uint b"
  by (simp add: be_uint_def)

lemma be_uint_4: "be_uint [a, b, c, d] = ((uint a * 256 + uint b) * 256 + uint c) * 256 + uint d"
  by (simp add: be_uint_def)

lemma rest_nth: "position c + k < length (buffer c) \<Longrightarrow> uint (rest c ! k) = octet c k"
  by (simp add: rest_def octet_def)

lemma length_rest: "length (rest c) = length (buffer c) - position c"
  by (simp add: rest_def)

section \<open>Dict facts and the layer chain\<close>

lemma map_of_dict_set: "map_of (dict_set k v d) = (map_of d)(k \<mapsto> v)"
  by (induction d) (auto simp: fun_eq_iff)

lemma keys_dict_set:
  "map fst (dict_set k v d) = (if k \<in> set (map fst d) then map fst d else map fst d @ [k])"
proof (induction d)
  case Nil
  show ?case by simp
next
  case (Cons p d)
  obtain k' v' where p: "p = (k', v')" by (cases p)
  show ?case
  proof (cases "k' = k")
    case True
    with p show ?thesis by simp
  next
    case False
    with p Cons show ?thesis by simp
  qed
qed


lemma read_next_layer_total:
  "\<exists>r c'. read_next_layer nxt d c = Inr (r, c') \<and>
     (\<forall>k. k \<noteq> next_layer_slot \<longrightarrow> map_of r k = map_of d k) \<and>
     (map fst r = map fst d \<or> map fst r = map fst d @ [next_layer_slot]) \<and>
     (remaining c = 0 \<longrightarrow> r = d)"
  by (auto simp: read_next_layer_def map_of_dict_set keys_dict_set split: option.splits sum.splits)

lemma get_field_read_ospf:
  assumes "position c + 24 \<le> length (buffer c)" and "k \<noteq> next_layer_slot"
  shows "get_field k (read_ospf nxt c) = map_of (header_of (rest c)) k"
proof -
  obtain r c' where "read_next_layer nxt (header_of (rest c)) (c\<lparr>position := position c + 24\<rparr>) = Inr (r, c')"
    and "\<forall>k. k \<noteq> next_layer_slot \<longrightarrow> map_of r k = map_of (header_of (rest c)) k"
    using read_next_layer_total by blast
  with assms show ?thesis
    by (simp add: read_ospf_def read_ospf_dict_ok bnd_def get_field_def)
qed

section \<open>Fields of the header record\<close>

lemma TYPE_tbl_unmapped: "k \<notin> {1, 2, 3, 4, 5} \<Longrightarrow> dict_get TYPE_tbl k = PNone"
  by (simp add: dict_get_def TYPE_tbl_def)

lemma AUTH_unmapped: "k \<notin> {0, 1, 2} \<Longrightarrow> dict_get AUTH k = PNone"
  by (simp add: dict_get_def AUTH_def)

lemma header_type:
  "2 \<le> length bs \<Longrightarrow> map_of (header_of bs) ''type'' = Some (dict_get TYPE_tbl (uint (bs ! 1)))"
  using slice1_drop [of 1 bs] by (simp add: header_of_def Let_def be_uint_1)

lemma header_autype:
  "16 \<le> length bs \<Longrightarrow> map_of (header_of bs) ''autype'' =
     Some (py_or (dict_get AUTH (uint (bs ! 14) * 256 + uint (bs ! 15))) (PStr ''Reserved''))"
  using slice2_drop [of 14 bs] by (simp add: header_of_def Let_def be_uint_2)

lemma header_auth:
  "24 \<le> length bs \<Longrightarrow> map_of (header_of bs) ''auth'' =
     Some (if uint (bs ! 14) * 256 + uint (bs ! 15) = 2
           then PDict [(''resv'', PBytes [bs ! 16, bs ! 17]),
                       (''key_id'', PInt (uint (bs ! 18))),
                       (''len'', PInt (uint (bs ! 19))),
                       (''seq'', PInt (((uint (bs ! 20) * 256 + uint (bs ! 21)) * 256 + uint (bs ! 22)) * 256 + uint (bs ! 23)))]
           else PBytes (take 8 (drop 16 bs)))"
  using slice2_drop [of 14 bs] slice2_drop [of 16 bs] slice1_drop [of 18 bs] slice1_drop [of 19 bs]
    slice4_drop [of 20 bs]
  by (simp add: header_of_def Let_def be_uint_1 be_uint_2 be_uint_4)

lemma header_ids:
  "12 \<le> length bs \<Longrightarrow>
     map_of (header_of bs) ''router_id'' =
       Some (PStr (str (uint (bs ! 4)) @ ''.'' @ str (uint (bs ! 5)) @ ''.'' @ str (uint (bs ! 6)) @ ''.'' @ str (uint (bs ! 7)))) \<and>
     map_of (header_of bs) ''area_id'' =
       Some (PStr (str (uint (bs ! 8)) @ ''.'' @ str (uint (bs ! 9)) @ ''.'' @ str (uint (bs ! 10)) @ ''.'' @ str (uint (bs ! 11))))"
  using slice4_drop [of 4 bs] slice4_drop [of 8 bs]
  by (simp add: header_of_def Let_def)

lemma rest_octet: "position c + 24 \<le> length (buffer c) \<Longrightarrow> k < 24 \<Longrightarrow> uint (rest c ! k) = octet c k"
  by (simp add: rest_nth)

lemma rest_byte: "position c + 24 \<le> length (buffer c) \<Longrightarrow> k < 24 \<Longrightarrow> rest c ! k = buffer c ! (position c + k)"
  by (simp add: rest_def)

lemma rest_tail: "take 8 (drop 16 (rest c)) = take 8 (drop (position c + 16) (buffer c))"
  by (simp add: rest_def add.commute)

lemma slot_neq [simp]: "''type'' \<noteq> next_layer_slot" "''auth'' \<noteq> next_layer_slot"
  "''autype'' \<noteq> next_layer_slot" "''router_id'' \<noteq> next_layer_slot" "''area_id'' \<noteq> next_layer_slot"
  by (simp_all add: next_layer_slot_def)

section \<open>Decimal strings, and the record as a function of the remaining bytes\<close>

lemma of_char_digit: "n < 10 \<Longrightarrow> (of_char (digit n) :: int) = 48 + int n"
proof -
  assume "n < 10"
  then have "n \<in> {0, 1, 2, 3, 4, 5, 6, 7, 8, 9}" by auto
  then show ?thesis by (auto simp: digit_def)
qed

lemma int_of_decimal_snoc: "int_of_decimal (s @ [ch]) = 10 * int_of_decimal s + (of_char ch - 48)"
  by (simp add: int_of_decimal_def)

lemma int_of_decimal_str_nat: "int_of_decimal (str_nat n) = int n"
proof (induction n rule: str_nat.induct)
  case (1 n)
  show ?case
  proof (cases "n < 10")
    case True
    then show ?thesis
      by (subst str_nat.simps) (simp add: int_of_decimal_def of_char_digit)
  next
    case False
    have split: "10 * int (n div 10) + int (n mod 10) = int n"
      by (simp add: zdiv_int zmod_int)
    from False 1 have "int_of_decimal (str_nat (n div 10)) = int (n div 10)" by simp
    with False split show ?thesis
      by (subst str_nat.simps) (simp add: int_of_decimal_snoc of_char_digit)
  qed
qed

lemma int_of_decimal_str: "0 \<le> i \<Longrightarrow> int_of_decimal (str i) = i"
  by (simp add: str_def int_of_decimal_str_nat)

lemma read_ospf_record:
  "map_sum id fst (read_ospf nxt c) =
     (if length (rest c) < 24 then Inl TruncatedInput
      else if length (rest c) = 24 then Inr (header_of (rest c))
      else case nxt of
          None \<Rightarrow> Inr (dict_set next_layer_slot (PBytes (drop 24 (rest c))) (header_of (rest c)))
        | Some dis \<Rightarrow>
            (case map_sum id fst (dis (c\<lparr>position := position c + 24\<rparr>)) of
               Inl e \<Rightarrow> Inr (header_of (rest c))
             | Inr sub \<Rightarrow> Inr (dict_set next_layer_slot (PDict sub) (header_of (rest c)))))"
proof (cases "length (rest c) < 24")
  case True
  then have "length (buffer c) < position c + 24" by (simp add: length_rest)
  then have "read_ospf_dict c = Inl TruncatedInput" by (rule read_ospf_dict_trunc)
  with True show ?thesis by (simp add: read_ospf_def bnd_def)
next
  case False
  then have ok: "position c + 24 \<le> length (buffer c)" by (simp add: length_rest)
  have tl: "drop (position c + 24) (buffer c) = drop 24 (rest c)"
    by (simp add: rest_def add.commute)
  from False ok tl show ?thesis
    by (auto simp: read_ospf_def read_ospf_dict_ok bnd_def read_next_layer_def remaining_def
        length_rest split: option.splits sum.splits)
qed

lemma map_sum_read_ospf_dict:
  "map_sum id fst (read_ospf_dict c) =
     (if length (rest c) < 24 then Inl TruncatedInput else Inr (header_of (rest c)))"
proof (cases "length (rest c) < 24")
  case True
  then have "length (buffer c) < position c + 24" by (simp add: length_rest)
  then have "read_ospf_dict c = Inl TruncatedInput" by (rule read_ospf_dict_trunc)
  with True show ?thesis by simp
next
  case False
  then have ok: "position c + 24 \<le> length (buffer c)" by (simp add: length_rest)
  with False show ?thesis by (simp add: read_ospf_dict_ok)
qed

lemma read_ospf_dict_rest:
  "rest a = rest b \<Longrightarrow> map_sum id fst (read_ospf_dict a) = map_sum id fst (read_ospf_dict b)"
  by (simp add: map_sum_read_ospf_dict)

lemma rest_advance: "rest (c\<lparr>position := position c + n\<rparr>) = drop n (rest c)"
  by (simp add: rest_def add.commute)

section \<open>The claims\<close>

text \<open>
  Claim C1, as the code has it: for every buffer of at least 24 bytes whose 1-byte
  packet-type code is not one of 1, 2, 3, 4, 5, the decode succeeds and the record's
  \<^verbatim>\<open>type\<close> field is \<^verbatim>\<open>None\<close>, the default of \<^verbatim>\<open>TYPE.get\<close>. No error is raised, and the
  raw code is not kept in the field.
\<close>

theorem read_ospf_type_unmapped:
  assumes "position c + 24 \<le> length (buffer c)" and "octet c 1 \<notin> {1, 2, 3, 4, 5}"
  shows "get_field ''type'' (read_ospf nxt c) = Some PNone"
proof -
  from assms(1) have "2 \<le> length (rest c)" by (simp add: length_rest)
  then have "map_of (header_of (rest c)) ''type'' = Some (dict_get TYPE_tbl (octet c 1))"
    using assms(1) by (simp add: header_type rest_octet)
  with assms show ?thesis by (simp add: get_field_read_ospf TYPE_tbl_unmapped)
qed

theorem read_ospf_type_unmapped_witness:
  "position (at_start unknown_type_header) + 24 \<le> length (buffer (at_start unknown_type_header)) \<and>
   octet (at_start unknown_type_header) 1 \<notin> {1, 2, 3, 4, 5} \<and>
   get_field ''type'' (read_ospf None (at_start unknown_type_header)) = Some PNone"
proof -
  have h1: "position (at_start unknown_type_header) + 24 \<le> length (buffer (at_start unknown_type_header))"
    by (simp add: at_start_def unknown_type_header_def)
  have h2: "octet (at_start unknown_type_header) 1 \<notin> {1, 2, 3, 4, 5}"
    by (simp add: at_start_def unknown_type_header_def octet_def)
  from read_ospf_type_unmapped [OF h1 h2, of None] h1 h2 show ?thesis by simp
qed

text \<open>
  C1 as stated (the \<^verbatim>\<open>type\<close> field equals the raw code) fails at type code 9: the
  field is \<^verbatim>\<open>None\<close>, not 9.
\<close>

theorem read_ospf_type_passthrough_counterexample:
  "octet (at_start unknown_type_header) 1 = 9 \<and> map_of TYPE_tbl 9 = None \<and>
   get_field ''type'' (read_ospf None (at_start unknown_type_header)) = Some PNone \<and>
   get_field ''type'' (read_ospf None (at_start unknown_type_header)) \<noteq> Some (PInt 9)"
  by code_simp

text \<open>
  Claim C2: for every buffer of at least 24 bytes, the \<^verbatim>\<open>auth\<close> field is decided by the
  raw 2-byte code at bytes 14-15 alone. If the code is 2, \<^verbatim>\<open>auth\<close> is a nested record
  with exactly the keys \<^verbatim>\<open>resv\<close> (bytes 16-17, raw), \<^verbatim>\<open>key_id\<close> (byte 18),
  \<^verbatim>\<open>len\<close> (byte 19) and \<^verbatim>\<open>seq\<close> (bytes 20-23, unsigned big-endian); for every other
  code it is the 8 raw bytes 16-23.
\<close>

theorem read_ospf_auth_shape:
  assumes "position c + 24 \<le> length (buffer c)"
  shows "get_field ''auth'' (read_ospf nxt c) =
     Some (if octet c 14 * 256 + octet c 15 = 2
           then PDict [(''resv'', PBytes [buffer c ! (position c + 16), buffer c ! (position c + 17)]),
                       (''key_id'', PInt (octet c 18)),
                       (''len'', PInt (octet c 19)),
                       (''seq'', PInt (((octet c 20 * 256 + octet c 21) * 256 + octet c 22) * 256 + octet c 23))]
           else PBytes (take 8 (drop (position c + 16) (buffer c))))"
proof -
  from assms have "24 \<le> length (rest c)" by (simp add: length_rest)
  from header_auth [OF this] assms show ?thesis
    by (simp add: get_field_read_ospf rest_byte rest_tail octet_def)
qed

theorem read_ospf_auth_shape_witness:
  "position (at_start crypto_header) + 24 \<le> length (buffer (at_start crypto_header)) \<and>
   get_field ''auth'' (read_ospf None (at_start crypto_header)) =
     Some (PDict [(''resv'', PBytes [0, 0]), (''key_id'', PInt 7), (''len'', PInt 16), (''seq'', PInt 258)])"
proof -
  have h: "position (at_start crypto_header) + 24 \<le> length (buffer (at_start crypto_header))"
    by (simp add: at_start_def crypto_header_def)
  from read_ospf_auth_shape [OF h, of None] h show ?thesis
    by (simp add: at_start_def crypto_header_def octet_def)
qed

text \<open>
  Claim C3: for every buffer of at least 24 bytes whose 2-byte authentication-type code
  is not 0, 1 or 2, the \<^verbatim>\<open>autype\<close> field is the string \<^verbatim>\<open>Reserved\<close> and \<^verbatim>\<open>auth\<close> is
  the 8 raw bytes 16-23.
\<close>

theorem read_ospf_autype_reserved:
  assumes "position c + 24 \<le> length (buffer c)" and "octet c 14 * 256 + octet c 15 \<notin> {0, 1, 2}"
  shows "get_field ''autype'' (read_ospf nxt c) = Some (PStr ''Reserved'') \<and>
         get_field ''auth'' (read_ospf nxt c) = Some (PBytes (take 8 (drop (position c + 16) (buffer c))))"
proof -
  from assms(1) have len: "24 \<le> length (rest c)" by (simp add: length_rest)
  then have "16 \<le> length (rest c)" by simp
  from header_autype [OF this] assms have "get_field ''autype'' (read_ospf nxt c) = Some (PStr ''Reserved'')"
    by (simp add: get_field_read_ospf rest_octet AUTH_unmapped py_or_def)
  moreover from header_auth [OF len] assms
  have "get_field ''auth'' (read_ospf nxt c) = Some (PBytes (take 8 (drop (position c + 16) (buffer c))))"
    by (simp add: get_field_read_ospf rest_octet rest_tail)
  ultimately show ?thesis by simp
qed

theorem read_ospf_autype_reserved_witness:
  "position (at_start reserved_auth_header) + 24 \<le> length (buffer (at_start reserved_auth_header)) \<and>
   octet (at_start reserved_auth_header) 14 * 256 + octet (at_start reserved_auth_header) 15 = 99 \<and>
   get_field ''autype'' (read_ospf None (at_start reserved_auth_header)) = Some (PStr ''Reserved'') \<and>
   get_field ''auth'' (read_ospf None (at_start reserved_auth_header)) =
     Some (PBytes [0xDE, 0xAD, 0xBE, 0xEF, 0xCA, 0xFE, 0xBA, 0xBE])"
proof -
  have h1: "position (at_start reserved_auth_header) + 24 \<le> length (buffer (at_start reserved_auth_header))"
    by (simp add: at_start_def reserved_auth_header_def)
  have h2: "octet (at_start reserved_auth_header) 14 * 256 + octet (at_start reserved_auth_header) 15 = 99"
    by (simp add: at_start_def reserved_auth_header_def octet_def)
  then have h3: "octet (at_start reserved_auth_header) 14 * 256 + octet (at_start reserved_auth_header) 15 \<notin> {0, 1, 2}"
    by simp
  from read_ospf_autype_reserved [OF h1 h3, of None] h1 h2 show ?thesis
    by (simp add: at_start_def reserved_auth_header_def)
qed

text \<open>
  Claim C4: for every successfully constructed \<^verbatim>\<open>OSPF\<close> object, the property
  \<^verbatim>\<open>length\<close> (and \<^verbatim>\<open>__len__\<close>, \<^verbatim>\<open>__length_hint__\<close>) is the constant 24, whatever
  the value of the record's \<^verbatim>\<open>len\<close> field.
\<close>

theorem ospf_length_constant:
  assumes "OSPF_init nxt file = Inr self"
  shows "length_prop self = 24 \<and> len_dunder self = 24 \<and> length_hint_dunder self = 24 \<and>
         (\<forall>v. length_prop (self\<lparr>ospf_info := dict_set ''len'' v (ospf_info self)\<rparr>) = 24)"
  by (simp add: length_prop_def len_dunder_def length_hint_dunder_def)

theorem ospf_length_constant_witness:
  "OSPF_init None (at_start example_header) =
     Inr \<lparr>ospf_file = \<lparr>buffer = example_header, position = 24\<rparr>,
          ospf_info = header_of example_header\<rparr> \<and>
   map_of (header_of example_header) ''len'' = Some (PInt 44) \<and>
   length_prop \<lparr>ospf_file = \<lparr>buffer = example_header, position = 24\<rparr>,
                ospf_info = header_of example_header\<rparr> = 24"
proof -
  have h: "OSPF_init None (at_start example_header) =
     Inr \<lparr>ospf_file = \<lparr>buffer = example_header, position = 24\<rparr>,
          ospf_info = header_of example_header\<rparr>"
    by (simp add: OSPF_init_def read_ospf_def read_ospf_dict_ok at_start_def rest_def bnd_def
        read_next_layer_def remaining_def example_header_def)
  have l: "map_of (header_of example_header) ''len'' = Some (PInt 44)"
    by (simp add: header_of_def example_header_def be_uint_def)
  from ospf_length_constant [OF h] h l show ?thesis by simp
qed

text \<open>
  Claim C5: for every buffer of at least 24 bytes, the reads of \<^verbatim>\<open>read_ospf\<close> succeed
  and advance the position by exactly 24; after the 16 bytes of the preamble, both the
  cryptographic sub-layout (2 + 1 + 1 + 4 bytes) and the opaque read take exactly the
  8 trailing bytes.
\<close>

theorem read_ospf_consumes_24:
  assumes "position c + 24 \<le> length (buffer c)"
  shows "(\<exists>d. read_ospf_dict c = Inr (d, c\<lparr>position := position c + 24\<rparr>)) \<and>
         (\<exists>a. read_encrypt_auth (c\<lparr>position := position c + 16\<rparr>) = Inr (a, c\<lparr>position := position c + 24\<rparr>)) \<and>
         (\<exists>a. read_fileng 8 (c\<lparr>position := position c + 16\<rparr>) = Inr (a, c\<lparr>position := position c + 24\<rparr>))"
  using assms by (simp add: read_ospf_dict_ok read_encrypt_auth_ok read_fileng_ok)

theorem read_ospf_consumes_24_witness:
  "position (at_start crypto_header) + 24 \<le> length (buffer (at_start crypto_header)) \<and>
   (\<exists>d. read_ospf_dict (at_start crypto_header) = Inr (d, \<lparr>buffer = crypto_header, position = 24\<rparr>))"
proof -
  have h: "position (at_start crypto_header) + 24 \<le> length (buffer (at_start crypto_header))"
    by (simp add: at_start_def crypto_header_def)
  from read_ospf_consumes_24 [OF h] h show ?thesis by (simp add: at_start_def)
qed

text \<open>
  Claim C6: for every buffer with fewer than 24 bytes at the cursor, \<^verbatim>\<open>read_ospf\<close>
  fails with \<^verbatim>\<open>TruncatedInput\<close>, and so does the construction of the \<^verbatim>\<open>OSPF\<close> object:
  the result is the error alone, with no record, partial or otherwise.
\<close>

theorem read_ospf_truncated:
  assumes "length (buffer c) < position c + 24"
  shows "read_ospf nxt c = Inl TruncatedInput \<and> OSPF_init nxt c = Inl TruncatedInput"
  using read_ospf_dict_trunc [OF assms] by (simp add: read_ospf_def OSPF_init_def bnd_def)

theorem read_ospf_truncated_witness:
  "length (buffer (at_start short_buffer)) = 10 \<and>
   read_ospf None (at_start short_buffer) = Inl TruncatedInput \<and>
   OSPF_init None (at_start short_buffer) = Inl TruncatedInput"
proof -
  have h: "length (buffer (at_start short_buffer)) = 10"
    by (simp add: at_start_def short_buffer_def)
  then have "length (buffer (at_start short_buffer)) < position (at_start short_buffer) + 24"
    by simp
  from read_ospf_truncated [OF this, of None] h show ?thesis by simp
qed



text \<open>
  Claim C8: \<^verbatim>\<open>_read_id_numbers\<close> renders every four bytes as the decimal strings of the
  four octets joined by periods (the decimal string of an octet has the octet as its
  value); the bytes 192, 0, 2, 1 give \<^verbatim>\<open>192.0.2.1\<close>; and in every decode of at least 24
  bytes \<^verbatim>\<open>router_id\<close> is this rendering of bytes 4-7 and \<^verbatim>\<open>area_id\<close> of bytes 8-11.
\<close>

theorem read_id_numbers_dotted_quad:
  "read_id_numbers \<lparr>buffer = [a, b, c, d], position = 0\<rparr> =
     Inr (str (uint a) @ ''.'' @ str (uint b) @ ''.'' @ str (uint c) @ ''.'' @ str (uint d),
          \<lparr>buffer = [a, b, c, d], position = 4\<rparr>) \<and>
   int_of_decimal (str (uint a)) = uint a \<and>
   read_id_numbers \<lparr>buffer = [192, 0, 2, 1], position = 0\<rparr> =
     Inr (''192.0.2.1'', \<lparr>buffer = [192, 0, 2, 1], position = 4\<rparr>) \<and>
   (\<forall>nxt (cur :: cursor). position cur + 24 \<le> length (buffer cur) \<longrightarrow>
      get_field ''router_id'' (read_ospf nxt cur) =
        Some (PStr (str (octet cur 4) @ ''.'' @ str (octet cur 5) @ ''.'' @ str (octet cur 6) @ ''.'' @ str (octet cur 7))) \<and>
      get_field ''area_id'' (read_ospf nxt cur) =
        Some (PStr (str (octet cur 8) @ ''.'' @ str (octet cur 9) @ ''.'' @ str (octet cur 10) @ ''.'' @ str (octet cur 11))))"
proof (intro conjI allI impI)
  show "read_id_numbers \<lparr>buffer = [a, b, c, d], position = 0\<rparr> =
     Inr (str (uint a) @ ''.'' @ str (uint b) @ ''.'' @ str (uint c) @ ''.'' @ str (uint d),
          \<lparr>buffer = [a, b, c, d], position = 4\<rparr>)"
    by (simp add: read_id_numbers_ok)
  show "int_of_decimal (str (uint a)) = uint a"
    by (simp add: int_of_decimal_str)
  show "read_id_numbers \<lparr>buffer = [192, 0, 2, 1], position = 0\<rparr> =
     Inr (''192.0.2.1'', \<lparr>buffer = [192, 0, 2, 1], position = 4\<rparr>)"
    by (simp add: read_id_numbers_ok str_def str_nat.simps digit_def)
next
  fix nxt and cur :: cursor
  assume ok: "position cur + 24 \<le> length (buffer cur)"
  then have "12 \<le> length (rest cur)" by (simp add: length_rest)
  from header_ids [OF this] ok
  show "get_field ''router_id'' (read_ospf nxt cur) =
        Some (PStr (str (octet cur 4) @ ''.'' @ str (octet cur 5) @ ''.'' @ str (octet cur 6) @ ''.'' @ str (octet cur 7)))"
    and "get_field ''area_id'' (read_ospf nxt cur) =
        Some (PStr (str (octet cur 8) @ ''.'' @ str (octet cur 9) @ ''.'' @ str (octet cur 10) @ ''.'' @ str (octet cur 11)))"
    by (simp_all add: get_field_read_ospf rest_octet)
qed

theorem read_id_numbers_dotted_quad_witness:
  "position (at_start example_header) + 24 \<le> length (buffer (at_start example_header)) \<and>
   get_field ''router_id'' (read_ospf None (at_start example_header)) = Some (PStr ''192.0.2.1'') \<and>
   get_field ''area_id'' (read_ospf None (at_start example_header)) = Some (PStr ''0.0.0.1'')"
proof -
  have h: "position (at_start example_header) + 24 \<le> length (buffer (at_start example_header))"
    by (simp add: at_start_def example_header_def)
  from read_id_numbers_dotted_quad [of 0 0 0 0] h
  have "get_field ''router_id'' (read_ospf None (at_start example_header)) =
        Some (PStr (str (octet (at_start example_header) 4) @ ''.'' @ str (octet (at_start example_header) 5) @ ''.'' @
          str (octet (at_start example_header) 6) @ ''.'' @ str (octet (at_start example_header) 7)))"
    and "get_field ''area_id'' (read_ospf None (at_start example_header)) =
        Some (PStr (str (octet (at_start example_header) 8) @ ''.'' @ str (octet (at_start example_header) 9) @ ''.'' @
          str (octet (at_start example_header) 10) @ ''.'' @ str (octet (at_start example_header) 11)))"
    by blast+
  with h show ?thesis
    by (simp add: at_start_def example_header_def octet_def str_def str_nat.simps digit_def)
qed

text \<open>
  Claim C9: decoding is deterministic, and the record depends on the bytes at the cursor
  only: two runs whose cursors have the same remaining bytes return equal results (the
  same record, or the same error), whatever the position and the bytes before it,
  provided the next-layer dissector, if there is one, depends on the remaining bytes only
  as well.
\<close>

theorem read_ospf_deterministic:
  assumes "rest c1 = rest c2"
    and "\<forall>dis. nxt = Some dis \<longrightarrow>
           (\<forall>a b. rest a = rest b \<longrightarrow> map_sum id fst (dis a) = map_sum id fst (dis b))"
  shows "map_sum id fst (read_ospf nxt c1) = map_sum id fst (read_ospf nxt c2)"
proof (cases nxt)
  case None
  with assms(1) show ?thesis by (simp add: read_ospf_record)
next
  case (Some dis)
  have "rest (c1\<lparr>position := position c1 + 24\<rparr>) = rest (c2\<lparr>position := position c2 + 24\<rparr>)"
    using assms(1) by (simp add: rest_advance)
  with assms(2) Some
  have "map_sum id fst (dis (c1\<lparr>position := position c1 + 24\<rparr>)) =
        map_sum id fst (dis (c2\<lparr>position := position c2 + 24\<rparr>))"
    by blast
  with assms(1) Some show ?thesis by (simp add: read_ospf_record split: sum.splits)
qed

theorem read_ospf_deterministic_witness:
  "rest \<lparr>buffer = 0xFF # example_header @ crypto_header, position = 1\<rparr> =
     rest (at_start (example_header @ crypto_header)) \<and>
   map_sum id fst (read_ospf (Some read_ospf_dict) \<lparr>buffer = 0xFF # example_header @ crypto_header, position = 1\<rparr>) =
   map_sum id fst (read_ospf (Some read_ospf_dict) (at_start (example_header @ crypto_header)))"
proof -
  have h1: "rest \<lparr>buffer = 0xFF # example_header @ crypto_header, position = 1\<rparr> =
     rest (at_start (example_header @ crypto_header))"
    by (simp add: rest_def at_start_def)
  have h2: "\<forall>dis. Some read_ospf_dict = Some dis \<longrightarrow>
           (\<forall>a b. rest a = rest b \<longrightarrow> map_sum id fst (dis a) = map_sum id fst (dis b))"
    by (auto dest: read_ospf_dict_rest)
  from read_ospf_deterministic [OF h1 h2] h1 show ?thesis by simp
qed

text \<open>
  Claim C10: for every buffer of at least 24 bytes whose authentication-type code is 0, 1
  or 2, the code is a key of \<^verbatim>\<open>AUTH\<close> and the \<^verbatim>\<open>autype\<close> field is the name the table
  maps it to, never the fallback \<^verbatim>\<open>Reserved\<close>: code 0 gives \<^verbatim>\<open>Null Authentication\<close>,
  code 1 \<^verbatim>\<open>Simple Password\<close> and code 2 \<^verbatim>\<open>Cryptographic Authentication\<close>. The
  truthiness test of \<^verbatim>\<open>or\<close> keeps every name because every name is a non-empty string.
\<close>

theorem read_ospf_autype_mapped:
  assumes "position c + 24 \<le> length (buffer c)"
    and "octet c 14 * 256 + octet c 15 \<in> {0, 1, 2}"
  shows "(\<exists>name. map_of AUTH (octet c 14 * 256 + octet c 15) = Some name \<and>
            get_field ''autype'' (read_ospf nxt c) = Some (PStr name) \<and>
            truthy (PStr name) \<and> name \<noteq> ''Reserved'') \<and>
         (octet c 14 * 256 + octet c 15 = 0 \<longrightarrow>
            get_field ''autype'' (read_ospf nxt c) = Some (PStr ''Null Authentication'')) \<and>
         (octet c 14 * 256 + octet c 15 = 1 \<longrightarrow>
            get_field ''autype'' (read_ospf nxt c) = Some (PStr ''Simple Password'')) \<and>
         (octet c 14 * 256 + octet c 15 = 2 \<longrightarrow>
            get_field ''autype'' (read_ospf nxt c) = Some (PStr ''Cryptographic Authentication''))"
proof -
  let ?code = "octet c 14 * 256 + octet c 15"
  from assms(1) have "16 \<le> length (rest c)" by (simp add: length_rest)
  from header_autype [OF this] assms(1)
  have field: "get_field ''autype'' (read_ospf nxt c) =
      Some (py_or (dict_get AUTH ?code) (PStr ''Reserved''))"
    by (simp add: get_field_read_ospf rest_octet)
  from assms(2) consider "?code = 0" | "?code = 1" | "?code = 2" by auto
  then show ?thesis
  proof cases
    case 1
    with field show ?thesis by (simp add: dict_get_def AUTH_def py_or_def)
  next
    case 2
    with field show ?thesis by (simp add: dict_get_def AUTH_def py_or_def)
  next
    case 3
    with field show ?thesis by (simp add: dict_get_def AUTH_def py_or_def)
  qed
qed

theorem read_ospf_autype_mapped_witness:
  "octet (at_start example_header) 14 * 256 + octet (at_start example_header) 15 = 0 \<and>
   get_field ''autype'' (read_ospf None (at_start example_header)) = Some (PStr ''Null Authentication'') \<and>
   octet (at_start password_header) 14 * 256 + octet (at_start password_header) 15 = 1 \<and>
   get_field ''autype'' (read_ospf None (at_start password_header)) = Some (PStr ''Simple Password'') \<and>
   octet (at_start crypto_header) 14 * 256 + octet (at_start crypto_header) 15 = 2 \<and>
   get_field ''autype'' (read_ospf None (at_start crypto_header)) =
     Some (PStr ''Cryptographic Authentication'')"
proof -
  have l0: "position (at_start example_header) + 24 \<le> length (buffer (at_start example_header))"
    by (simp add: at_start_def example_header_def)
  have l1: "position (at_start password_header) + 24 \<le> length (buffer (at_start password_header))"
    by (simp add: at_start_def password_header_def)
  have l2: "position (at_start crypto_header) + 24 \<le> length (buffer (at_start crypto_header))"
    by (simp add: at_start_def crypto_header_def)
  have c0: "octet (at_start example_header) 14 * 256 + octet (at_start example_header) 15 = 0"
    by (simp add: at_start_def example_header_def octet_def)
  have c1: "octet (at_start password_header) 14 * 256 + octet (at_start password_header) 15 = 1"
    by (simp add: at_start_def password_header_def octet_def)
  have c2: "octet (at_start crypto_header) 14 * 256 + octet (at_start crypto_header) 15 = 2"
    by (simp add: at_start_def crypto_header_def octet_def)
  from c0 have m0: "octet (at_start example_header) 14 * 256 + octet (at_start example_header) 15 \<in> {0, 1, 2}"
    by simp
  from c1 have m1: "octet (at_start password_header) 14 * 256 + octet (at_start password_header) 15 \<in> {0, 1, 2}"
    by simp
  from c2 have m2: "octet (at_start crypto_header) 14 * 256 + octet (at_start crypto_header) 15 \<in> {0, 1, 2}"
    by simp
  from read_ospf_autype_mapped [OF l0 m0, of None] read_ospf_autype_mapped [OF l1 m1, of None]
    read_ospf_autype_mapped [OF l2 m2, of None] c0 c1 c2
  show ?thesis by simp
qed

end
